theory Spec2Isabelle
  imports Complex_Main
begin

section \<open>The firing-solution solver of vector fleet solver\<close>

text \<open>
  Number model. The values of Python floats are modelled as real numbers: \<open>+\<close>, \<open>-\<close>,
  \<open>*\<close>, \<open>/\<close> are the exact operations, \<open>math.sqrt\<close>, \<open>math.asin\<close>, \<open>math.cos\<close> are
  \<^const>\<open>sqrt\<close>, \<^const>\<open>arcsin\<close>, \<^const>\<open>cos\<close>, the constant expression \<open>2**0.5\<close> is
  \<open>sqrt 2\<close>, and the literal \<open>3.141592653589793\<close> in \<open>angle_for_range\<close> (the double nearest
  to \<open>\<pi>\<close>, the value of Python's \<open>math.pi\<close>) is \<^const>\<open>pi\<close>.

  Every operation of the source that can raise is a branch of the model. A division raises
  \<open>ZeroDivisionError\<close> on a zero divisor, \<open>math.asin\<close> and \<open>math.sqrt\<close> raise
  \<open>ValueError\<close> outside their domain, and \<open>solve_fire\<close> raises \<open>ValueError\<close> itself.
  The power \<open>v0**2\<close> is the one operation of the source that raises on the range of
  doubles, and the one unguarded divisor: it raises \<open>OverflowError\<close> when the square
  rounds to infinity, and it is \<open>0.0\<close> when the square rounds to zero, so that the division
  by it raises \<open>ZeroDivisionError\<close>. Both are in the model (\<open>py_pow2\<close>).

  What the model does not have: the rounding of a result inside the range (half a unit in the
  last place, relative error at most \<open>2^-53\<close> in the normal range), the overflow of
  \<open>+\<close>, \<open>-\<close>, \<open>*\<close>, \<open>/\<close> to infinity (which raises nothing), NaN and signed zeros. A
  theorem whose conclusion a rounding could change states the hypotheses that keep its
  inputs away from that: a margin of \<open>2^-48\<close> at a boundary, and sizes inside the normal
  range.
\<close>

subsection \<open>Errors and the partial operations\<close>

datatype py_error = ValueError string | ZeroDivisionError | OverflowError

definition ebind :: "py_error + 'a \<Rightarrow> ('a \<Rightarrow> py_error + 'b) \<Rightarrow> py_error + 'b" where
  "ebind m f = (case m of Inl e \<Rightarrow> Inl e | Inr x \<Rightarrow> f x)"

definition py_div :: "real \<Rightarrow> real \<Rightarrow> py_error + real" where
  "py_div a b = (if b = 0 then Inl ZeroDivisionError else Inr (a / b))"

definition py_sqrt :: "real \<Rightarrow> py_error + real" where
  "py_sqrt x = (if x < 0 then Inl (ValueError ''math domain error'') else Inr (sqrt x))"

definition py_asin :: "real \<Rightarrow> py_error + real" where
  "py_asin x =
     (if x < - 1 \<or> 1 < x then Inl (ValueError ''math domain error'') else Inr (arcsin x))"

text \<open>
  \<open>x**2\<close> on a float. The largest double is \<open>2^1024 - 2^971\<close>; a square of at least
  \<open>2^1024 - 2^970\<close> rounds to infinity, which \<open>float.__pow__\<close> reports as
  \<open>OverflowError\<close>. The smallest positive double is \<open>2^-1074\<close>; a square of at most
  \<open>2^-1075\<close> rounds to \<open>0.0\<close>, which raises nothing.
\<close>

definition pow_overflow :: real where
  "pow_overflow = 2 ^ 1024 - 2 ^ 970"

definition pow_underflow :: real where
  "pow_underflow = 1 / 2 ^ 1075"

definition py_pow2 :: "real \<Rightarrow> py_error + real" where
  "py_pow2 x =
     (if pow_overflow \<le> x\<^sup>2 then Inl OverflowError
      else if x\<^sup>2 \<le> pow_underflow then Inr 0
      else Inr (x\<^sup>2))"

text \<open>
  The smallest positive normal double, and the relative margin that the theorems about the
  boundary \<open>R = v0\<^sup>2/g\<close> keep from that boundary (sixteen units in the last place of 1).
\<close>

definition min_normal :: real where
  "min_normal = 1 / 2 ^ 1022"

definition margin :: real where
  "margin = 1 / 2 ^ 48"

text \<open>The distances whose squares are normal doubles: from \<open>2^-510\<close> to below \<open>2^511\<close>.\<close>

definition range_low :: real where
  "range_low = 1 / 2 ^ 510"

definition range_high :: real where
  "range_high = 2 ^ 511"

text \<open>\<open>math.atan2(y, x)\<close>: the angle of the point \<open>(x, y)\<close> in \<open>(-\<pi>, \<pi>]\<close>, and 0 at the origin.\<close>

definition atan2 :: "real \<Rightarrow> real \<Rightarrow> real" where
  "atan2 y x =
     (if 0 < x then arctan (y / x)
      else if x < 0 then (if 0 \<le> y then arctan (y / x) + pi else arctan (y / x) - pi)
      else if 0 < y then pi / 2
      else if y < 0 then - (pi / 2)
      else 0)"

text \<open>\<open>math.degrees(x)\<close>.\<close>

definition degrees :: "real \<Rightarrow> real" where
  "degrees x = x * (180 / pi)"

subsection \<open>Constants and vector helpers\<close>

definition G :: real where
  "G = 981 / 100"

definition clamp :: "real \<Rightarrow> real \<Rightarrow> real \<Rightarrow> real" where
  "clamp x lo hi = (if x < lo then lo else if x > hi then hi else x)"

definition norm_py :: "real \<Rightarrow> real \<Rightarrow> py_error + real" where
  "norm_py dx dy = py_sqrt (dx * dx + dy * dy)"

definition unit :: "real \<Rightarrow> real \<Rightarrow> py_error + (real \<times> real)" where
  "unit dx dy =
     ebind (norm_py dx dy) (\<lambda>n.
       if n = 0 then Inr (0, 0)
       else ebind (py_div dx n) (\<lambda>ux. ebind (py_div dy n) (\<lambda>uy. Inr (ux, uy))))"

subsection \<open>The range-angle inverter\<close>

text \<open>
  \<open>angle_for_range(v0, R, g)\<close>: \<open>Inr None\<close> is the source's \<open>return None\<close>,
  \<open>Inr (Some (low, high))\<close> its pair of angles in radians.
\<close>

definition angle_for_range :: "real \<Rightarrow> real \<Rightarrow> real \<Rightarrow> py_error + (real \<times> real) option" where
  "angle_for_range v0 R g =
     ebind (py_pow2 v0) (\<lambda>v0_sq.
     ebind (py_div (g * R) v0_sq) (\<lambda>arg.
       if arg < - 1 \<or> arg > 1 then Inr None
       else ebind (py_asin (clamp arg (- 1) 1)) (\<lambda>two_theta.
         let low = 0.5 * two_theta;
             high = 0.5 * (pi - two_theta)
         in Inr (Some (low, high)))))"

subsection \<open>The iterative intercept solver\<close>

text \<open>The parameters of \<open>solve_fire\<close>, under their names in the source.\<close>

record fire_input =
  own_pos :: "real \<times> real"
  target_pos :: "real \<times> real"
  own_vel :: "real \<times> real"
  target_vel :: "real \<times> real"
  wind_vel :: "real \<times> real"
  v0 :: real
  prefer_high_arc :: bool
  max_iters :: int
  tol_time :: real

text \<open>
  The dictionary that \<open>solve_fire\<close> returns, one field per key; \<open>None\<close> is Python's
  \<open>None\<close>. The key \<open>max_range_m\<close> exists only in the unreachable result: it is \<open>None\<close>
  in the others.
\<close>

record fire_result =
  reachable :: bool
  theta_deg :: "real option"
  azimuth_deg :: "real option"
  time_s :: "real option"
  impact_xy :: "(real \<times> real) option"
  predicted_target_xy :: "(real \<times> real) option"
  iterations :: int
  low_high_deg :: "(real \<times> real) option"
  max_range_m :: "real option"

text \<open>
  The local variables that the code after the loop reads (\<open>dx\<close>, \<open>dy\<close>, \<open>R\<close>, \<open>xt\<close>,
  \<open>yt\<close>, \<open>theta_rad\<close>, \<open>azimuth_rad\<close>), as the last completed iteration left them. Before
  the first iteration they do not exist (\<open>'dx' in locals()\<close> is false, \<open>theta_rad\<close> and
  \<open>azimuth_rad\<close> are \<open>None\<close>): that state is \<open>None :: loop_locals option\<close>.
\<close>

record loop_locals =
  last_dx :: real
  last_dy :: real
  last_R :: real
  last_xt :: real
  last_yt :: real
  last_theta_rad :: real
  last_azimuth_rad :: real

text \<open>What one pass through the loop body does: \<open>return\<close> a result, or go on with \<open>t = t_new\<close>.\<close>

datatype step = Return fire_result | Continue real loop_locals

text \<open>Lines 119 to 132: the check of \<open>v0\<close> and the initial guess of the time of flight.\<close>

definition initial_time :: "fire_input \<Rightarrow> py_error + real" where
  "initial_time a =
     (let (x0, y0) = own_pos a;
          (xt0, yt0) = target_pos a;
          dx0 = xt0 - x0;
          dy0 = yt0 - y0
      in ebind (norm_py dx0 dy0) (\<lambda>R0.
           if v0 a \<le> 0 then Inl (ValueError ''Muzzle velocity must be positive.'')
           else ebind (py_div (v0 a) (sqrt 2)) (\<lambda>vx_guess.
                  py_div R0 (max vx_guess (1 / 1000000)))))"

text \<open>Lines 138 to 191: the body of the loop at iteration \<open>it\<close>, entered with the estimate \<open>t\<close>.\<close>

definition iteration :: "fire_input \<Rightarrow> int \<Rightarrow> real \<Rightarrow> py_error + step" where
  "iteration a it t =
     (let (x0, y0) = own_pos a;
          (xt0, yt0) = target_pos a;
          (vox, voy) = own_vel a;
          (vtx, vty) = target_vel a;
          (vwx, vwy) = wind_vel a;
          xt = xt0 + vtx * t;
          yt = yt0 + vty * t;
          xc = xt - vox * t - vwx * t;
          yc = yt - voy * t - vwy * t;
          dx = xc - x0;
          dy = yc - y0
      in ebind (norm_py dx dy) (\<lambda>R.
         ebind (angle_for_range (v0 a) R G) (\<lambda>roots.
           case roots of
             None \<Rightarrow>
               let azimuth_rad = atan2 dy dx
               in ebind (py_pow2 (v0 a)) (\<lambda>v0_sq.
                  ebind (py_div v0_sq G) (\<lambda>max_range.
                    Inr (Return \<lparr>reachable = False, theta_deg = None,
                      azimuth_deg = Some (degrees azimuth_rad), time_s = None,
                      impact_xy = None, predicted_target_xy = Some (xt, yt),
                      iterations = it, low_high_deg = None,
                      max_range_m = Some max_range\<rparr>)))
           | Some (low, high) \<Rightarrow>
               let theta_rad = (if prefer_high_arc a then high else low);
                   azimuth_rad = atan2 dy dx;
                   vx = v0 a * cos theta_rad;
                   vx = (if \<bar>vx\<bar> < 1 / 1000000 then 1 / 1000000 else vx)
               in ebind (py_div R vx) (\<lambda>t_new.
                    if \<bar>t_new - t\<bar> < tol_time a then
                      ebind (unit dx dy) (\<lambda>(ux, uy).
                        let impact_x = x0 + ux * R + (vox + vwx) * t_new;
                            impact_y = y0 + uy * R + (voy + vwy) * t_new
                        in Inr (Return \<lparr>reachable = True, theta_deg = Some (degrees theta_rad),
                             azimuth_deg = Some (degrees azimuth_rad), time_s = Some t_new,
                             impact_xy = Some (impact_x, impact_y),
                             predicted_target_xy = Some (xt, yt),
                             iterations = it,
                             low_high_deg = Some (degrees low, degrees high),
                             max_range_m = None\<rparr>))
                    else Inr (Continue t_new \<lparr>last_dx = dx, last_dy = dy, last_R = R,
                                last_xt = xt, last_yt = yt, last_theta_rad = theta_rad,
                                last_azimuth_rad = azimuth_rad\<rparr>)))))"

text \<open>
  Lines 193 to 206: the code after the loop, reached when \<open>range(1, max_iters+1)\<close> is
  exhausted; \<open>t\<close> is the last \<open>t_new\<close> (or the initial guess when the loop ran no iteration).
\<close>

definition not_converged :: "fire_input \<Rightarrow> real \<Rightarrow> loop_locals option \<Rightarrow> py_error + fire_result" where
  "not_converged a t prev =
     (let (x0, y0) = own_pos a;
          (vox, voy) = own_vel a;
          (vwx, vwy) = wind_vel a
      in case prev of
           None \<Rightarrow>
             Inr \<lparr>reachable = True, theta_deg = None, azimuth_deg = None, time_s = Some t,
                  impact_xy = None, predicted_target_xy = None, iterations = max_iters a,
                  low_high_deg = None, max_range_m = None\<rparr>
         | Some l \<Rightarrow>
             ebind (unit (last_dx l) (last_dy l)) (\<lambda>(ux, uy).
               let impact_x = x0 + ux * last_R l + (vox + vwx) * t;
                   impact_y = y0 + uy * last_R l + (voy + vwy) * t
               in Inr \<lparr>reachable = True, theta_deg = Some (degrees (last_theta_rad l)),
                    azimuth_deg = Some (degrees (last_azimuth_rad l)), time_s = Some t,
                    impact_xy = Some (impact_x, impact_y),
                    predicted_target_xy = Some (last_xt l, last_yt l),
                    iterations = max_iters a, low_high_deg = None, max_range_m = None\<rparr>))"

text \<open>The loop \<open>for it in range(1, max_iters+1)\<close>, from the iteration counter \<open>it\<close> on.\<close>

function solve_loop :: "fire_input \<Rightarrow> int \<Rightarrow> real \<Rightarrow> loop_locals option \<Rightarrow> py_error + fire_result" where
  "solve_loop a it t prev =
     (if max_iters a < it then not_converged a t prev
      else case iteration a it t of
             Inl e \<Rightarrow> Inl e
           | Inr (Return r) \<Rightarrow> Inr r
           | Inr (Continue t_new l) \<Rightarrow> solve_loop a (it + 1) t_new (Some l))"
  by pat_completeness auto
termination
  by (relation "measure (\<lambda>(a, it, t, prev). nat (max_iters a + 1 - it))") auto

definition solve_fire :: "fire_input \<Rightarrow> py_error + fire_result" where
  "solve_fire a = ebind (initial_time a) (\<lambda>t. solve_loop a 1 t None)"

text \<open>
  The states of the loop that a call of \<open>solve_fire\<close> passes through: \<open>reached a it t prev\<close>
  says that control arrives at the head of the loop with the counter \<open>it\<close>, the estimate \<open>t\<close>
  and the locals \<open>prev\<close>. With \<open>it \<le> max_iters a\<close> iteration \<open>it\<close> runs next; with
  \<open>max_iters a < it\<close> the loop is exhausted and the code after it runs.
\<close>

inductive reached :: "fire_input \<Rightarrow> int \<Rightarrow> real \<Rightarrow> loop_locals option \<Rightarrow> bool" where
  reached_start: "initial_time a = Inr t \<Longrightarrow> reached a 1 t None"
| reached_step: "reached a it t prev \<Longrightarrow> it \<le> max_iters a \<Longrightarrow>
     iteration a it t = Inr (Continue t_new l) \<Longrightarrow> reached a (it + 1) t_new (Some l)"

declare solve_loop.simps [simp del]

text \<open>
  The scenarios of section 8 of the specification: the own ship at rest at the origin, a
  target at rest at \<open>(x, 0)\<close>, no wind, the low arc.
\<close>

definition stationary_shot :: "real \<Rightarrow> real \<Rightarrow> int \<Rightarrow> real \<Rightarrow> fire_input" where
  "stationary_shot v x n tol =
     \<lparr>own_pos = (0, 0), target_pos = (x, 0), own_vel = (0, 0), target_vel = (0, 0),
      wind_vel = (0, 0), v0 = v, prefer_high_arc = False, max_iters = n, tol_time = tol\<rparr>"

text \<open>
  Two muzzle speeds at the ends of the range of doubles, both finite positive doubles:
  \<open>2^512\<close>, whose square overflows, and \<open>2^-540\<close>, whose square rounds to zero.
\<close>

definition huge_v0 :: real where
  "huge_v0 = 2 ^ 512"

definition tiny_v0 :: real where
  "tiny_v0 = 1 / 2 ^ 540"

section \<open>Properties of the range-angle inverter\<close>

lemma pow_bounds:
  "0 < pow_underflow" "pow_underflow < 1" "1000000 < pow_overflow"
  "pow_underflow < pow_overflow" "pow_underflow < min_normal"
  "0 < margin" "margin < 1 / 2" "0 < range_low" "range_low < 1" "1000000 < range_high"
  "pow_underflow < G * range_low"
  by (simp_all add: pow_underflow_def pow_overflow_def min_normal_def margin_def
      range_low_def range_high_def G_def)

lemma py_pow2_in_range:
  "pow_underflow < v\<^sup>2 \<Longrightarrow> v\<^sup>2 < pow_overflow \<Longrightarrow> py_pow2 v = Inr (v\<^sup>2)"
  by (simp add: py_pow2_def)

lemma moderate_in_range:
  assumes "1 \<le> v" and "v \<le> 1000"
  shows "pow_underflow < v\<^sup>2" and "v\<^sup>2 < pow_overflow" and "min_normal \<le> v\<^sup>2"
proof -
  have lo: "1 \<le> v\<^sup>2" using assms(1) by (rule one_le_power)
  have "v\<^sup>2 \<le> 1000\<^sup>2" using assms by (intro power_mono) simp_all
  then have hi: "v\<^sup>2 \<le> 1000000" by simp
  show "pow_underflow < v\<^sup>2" using lo pow_bounds(2) by linarith
  show "v\<^sup>2 < pow_overflow" using hi pow_bounds(3) by linarith
  show "min_normal \<le> v\<^sup>2" using lo by (simp add: min_normal_def)
qed

lemma angle_for_range_arg:
  assumes "pow_underflow < v\<^sup>2" and "v\<^sup>2 < pow_overflow"
  shows "angle_for_range v R g =
           (if g * R / v\<^sup>2 < - 1 \<or> 1 < g * R / v\<^sup>2 then Inr None
            else Inr (Some (arcsin (g * R / v\<^sup>2) / 2, (pi - arcsin (g * R / v\<^sup>2)) / 2)))"
proof -
  have "v\<^sup>2 \<noteq> 0" using assms(1) pow_bounds(1) by linarith
  then show ?thesis
    by (simp add: angle_for_range_def py_pow2_in_range [OF assms] ebind_def py_div_def
        py_asin_def clamp_def Let_def)
qed

lemma angle_for_range_overflow:
  "pow_overflow \<le> v\<^sup>2 \<Longrightarrow> angle_for_range v R g = Inl OverflowError"
  by (simp add: angle_for_range_def py_pow2_def ebind_def)

lemma angle_for_range_underflow:
  assumes "v\<^sup>2 \<le> pow_underflow"
  shows "angle_for_range v R g = Inl ZeroDivisionError"
proof -
  have "\<not> pow_overflow \<le> v\<^sup>2" using assms pow_bounds(4) by linarith
  then show ?thesis
    using assms by (simp add: angle_for_range_def py_pow2_def ebind_def py_div_def)
qed

lemma angle_for_range_Inr:
  assumes "angle_for_range v R g = Inr roots"
  shows "py_pow2 v = Inr (v\<^sup>2)"
proof (cases "pow_overflow \<le> v\<^sup>2")
  case True
  then show ?thesis using assms by (simp add: angle_for_range_overflow)
next
  case False
  show ?thesis
  proof (cases "v\<^sup>2 \<le> pow_underflow")
    case True
    then show ?thesis using assms by (simp add: angle_for_range_underflow)
  next
    case False
    then show ?thesis using \<open>\<not> pow_overflow \<le> v\<^sup>2\<close> by (simp add: py_pow2_def)
  qed
qed

lemma angle_for_range_total:
  "pow_underflow < v\<^sup>2 \<Longrightarrow> v\<^sup>2 < pow_overflow \<Longrightarrow> \<exists>roots. angle_for_range v R g = Inr roots"
  by (simp add: angle_for_range_arg)

lemma extreme_squares:
  "pow_overflow \<le> huge_v0\<^sup>2" "tiny_v0\<^sup>2 \<le> pow_underflow" "0 < huge_v0" "0 < tiny_v0"
  by (simp_all add: pow_overflow_def pow_underflow_def huge_v0_def tiny_v0_def power_divide)




text \<open>
  C3, as amended. For every \<open>v > 0\<close> whose square is a normal double that does not overflow,
  every \<open>g > 0\<close> and every range \<open>R\<close> that exceeds \<open>v\<^sup>2/g\<close> by the margin,
  \<open>R \<ge> (1 + 2^-48) \<cdot> v\<^sup>2/g\<close>, \<open>angle_for_range\<close> returns \<open>None\<close>: the range is
  unreachable. (Inside the margin the rounded quotient \<open>arg\<close> can be \<open>1.0\<close>, and a pair is
  returned.)
\<close>

theorem angle_for_range_unreachable:
  assumes "0 < v" and "min_normal \<le> v\<^sup>2" and "v\<^sup>2 < pow_overflow"
    and "0 < g" and "(1 + margin) * (v\<^sup>2 / g) \<le> R"
  shows "angle_for_range v R g = Inr None"
proof -
  have u: "pow_underflow < v\<^sup>2" using assms(2) pow_bounds(5) by linarith
  have "0 < v\<^sup>2 / g" using assms(1,4) by simp
  then have "0 < margin * (v\<^sup>2 / g)"
    using pow_bounds(6) by (rule mult_pos_pos [rotated])
  moreover have "(1 + margin) * (v\<^sup>2 / g) = v\<^sup>2 / g + margin * (v\<^sup>2 / g)"
    by (simp only: distrib_right mult_1)
  ultimately have "v\<^sup>2 / g < R" using assms(5) by linarith
  then have "v\<^sup>2 < g * R" using assms(4) by (simp add: pos_divide_less_eq mult.commute)
  then have "1 < g * R / v\<^sup>2" using assms(1) by simp
  then show ?thesis by (simp add: angle_for_range_arg [OF u assms(3)])
qed

theorem angle_for_range_unreachable_witness:
  "(0::real) < 18 \<and> min_normal \<le> 18\<^sup>2 \<and> 18\<^sup>2 < pow_overflow \<and> (0::real) < G
   \<and> (1 + margin) * (18\<^sup>2 / G) \<le> 5000
   \<and> angle_for_range 18 5000 G = Inr None"
proof -
  have r: "min_normal \<le> (18::real)\<^sup>2" "(18::real)\<^sup>2 < pow_overflow"
    using moderate_in_range [of 18] by simp_all
  have "(1 + margin) * (18\<^sup>2 / G) \<le> 2 * (18\<^sup>2 / G)"
    using pow_bounds(7) by (intro mult_right_mono) (simp_all add: G_def)
  moreover have "2 * (18\<^sup>2 / G) \<le> (5000::real)" by (simp add: G_def)
  ultimately have m: "(1 + margin) * (18\<^sup>2 / G) \<le> 5000" by linarith
  have h: "(0::real) < 18" "(0::real) < G" by (simp_all add: G_def)
  show ?thesis
    using h r m angle_for_range_unreachable [OF h(1) r h(2) m] by blast
qed

text \<open>
  C3 as stated fails at \<open>v = 2^-540\<close>: the range 5000 is beyond \<open>v\<^sup>2/g\<close>, the square is
  \<open>0.0\<close>, and \<open>angle_for_range\<close> raises \<open>ZeroDivisionError\<close> where the claim has \<open>None\<close>.
\<close>

theorem angle_for_range_unreachable_counterexample:
  "0 < tiny_v0 \<and> 0 < G \<and> tiny_v0\<^sup>2 / G < 5000
   \<and> angle_for_range tiny_v0 5000 G = Inl ZeroDivisionError
   \<and> angle_for_range tiny_v0 5000 G \<noteq> Inr None"
proof -
  have "tiny_v0\<^sup>2 / G \<le> pow_underflow / G"
    using extreme_squares(2) by (intro divide_right_mono) (simp_all add: G_def)
  moreover have "pow_underflow / G < 5000"
    using pow_bounds(2) by (simp add: G_def)
  ultimately have "tiny_v0\<^sup>2 / G < 5000" by linarith
  moreover have "(0::real) < G" by (simp add: G_def)
  ultimately show ?thesis
    using extreme_squares(4)
    by (simp add: angle_for_range_underflow [OF extreme_squares(2)])
qed




text \<open>
  C10, as amended. For every \<open>v > 0\<close> whose square neither overflows nor rounds to zero and
  every \<open>g > 0\<close>, a required range of zero is not an error: \<open>angle_for_range v 0 g\<close>
  returns exactly \<open>(0, \<pi>/2)\<close>.
\<close>

theorem angle_for_range_zero:
  assumes "0 < v" and "pow_underflow < v\<^sup>2" and "v\<^sup>2 < pow_overflow" and "0 < g"
  shows "angle_for_range v 0 g = Inr (Some (0, pi / 2))"
  by (simp add: angle_for_range_arg [OF assms(2,3)])

theorem angle_for_range_zero_witness:
  "(0::real) < 10 \<and> pow_underflow < 10\<^sup>2 \<and> 10\<^sup>2 < pow_overflow \<and> (0::real) < G
   \<and> angle_for_range 10 0 G = Inr (Some (0, pi / 2))"
proof -
  have r: "pow_underflow < (10::real)\<^sup>2" "(10::real)\<^sup>2 < pow_overflow"
    using moderate_in_range [of 10] by simp_all
  have h: "(0::real) < 10" "(0::real) < G" by (simp_all add: G_def)
  show ?thesis using h r angle_for_range_zero [OF h(1) r h(2)] by blast
qed

text \<open>
  C10 as stated fails at both ends of the range of doubles: a range of zero is an error at
  \<open>v = 2^-540\<close> (the division \<open>0.0 / 0.0\<close> raises \<open>ZeroDivisionError\<close>) and at \<open>v = 2^512\<close>
  (\<open>OverflowError\<close>).
\<close>

theorem angle_for_range_zero_counterexample:
  "0 < tiny_v0 \<and> 0 < huge_v0 \<and> 0 < G
   \<and> angle_for_range tiny_v0 0 G = Inl ZeroDivisionError
   \<and> angle_for_range huge_v0 0 G = Inl OverflowError"
  using extreme_squares(3,4)
  by (simp add: angle_for_range_overflow [OF extreme_squares(1)]
      angle_for_range_underflow [OF extreme_squares(2)] G_def)

section \<open>Properties of the intercept solver\<close>

subsection \<open>The loop body, the loop and the scenarios\<close>

lemma norm_py_eq: "norm_py dx dy = Inr (sqrt (dx * dx + dy * dy))"
  by (simp add: norm_py_def py_sqrt_def not_less)

lemma unit_eq:
  "unit dx dy = Inr (if sqrt (dx * dx + dy * dy) = 0 then (0, 0)
                     else (dx / sqrt (dx * dx + dy * dy), dy / sqrt (dx * dx + dy * dy)))"
  by (simp add: unit_def norm_py_eq ebind_def py_div_def)

lemma G_pos: "0 < G"
  by (simp add: G_def)

lemma initial_time_eq:
  assumes "own_pos a = (x0, y0)" "target_pos a = (xt0, yt0)"
  shows "initial_time a =
    (if v0 a \<le> 0 then Inl (ValueError ''Muzzle velocity must be positive.'')
     else Inr (sqrt ((xt0 - x0) * (xt0 - x0) + (yt0 - y0) * (yt0 - y0))
                 / max (v0 a / sqrt 2) (1 / 1000000)))"
proof -
  have "max (v0 a / sqrt 2) (1 / 1000000) \<noteq> 0"
    by (smt (verit) max.cobounded2 zero_less_divide_1_iff)
  then show ?thesis
    using assms by (simp add: initial_time_def norm_py_eq ebind_def py_div_def Let_def)
qed

lemma solve_fire_reached: "reached a it t prev \<Longrightarrow> solve_fire a = solve_loop a it t prev"
proof (induction rule: reached.induct)
  case (reached_start a t)
  then show ?case by (simp add: solve_fire_def ebind_def)
next
  case (reached_step a it t prev t_new l)
  then show ?case by (simp add: solve_loop.simps [of a it])
qed

lemma reached_initial: "reached a it t prev \<Longrightarrow> \<exists>t0. initial_time a = Inr t0"
  by (induction rule: reached.induct) auto

lemma iteration_unreachable:
  assumes "own_pos a = (x0, y0)" "target_pos a = (xt0, yt0)" "own_vel a = (vox, voy)"
    and "target_vel a = (vtx, vty)" "wind_vel a = (vwx, vwy)"
    and "xt = xt0 + vtx * t" "yt = yt0 + vty * t"
    and "dx = xt - vox * t - vwx * t - x0" "dy = yt - voy * t - vwy * t - y0"
    and "angle_for_range (v0 a) (sqrt (dx * dx + dy * dy)) G = Inr None"
  shows "iteration a it t =
     Inr (Return \<lparr>reachable = False, theta_deg = None,
            azimuth_deg = Some (degrees (atan2 dy dx)), time_s = None,
            impact_xy = None, predicted_target_xy = Some (xt, yt),
            iterations = it, low_high_deg = None,
            max_range_m = Some ((v0 a)\<^sup>2 / G)\<rparr>)"
  using assms G_pos angle_for_range_Inr [OF assms(10)]
  by (simp add: iteration_def norm_py_eq ebind_def py_div_def Let_def)

lemma iteration_reachable:
  assumes "own_pos a = (x0, y0)" "target_pos a = (xt0, yt0)" "own_vel a = (vox, voy)"
    and "target_vel a = (vtx, vty)" "wind_vel a = (vwx, vwy)"
    and "xt = xt0 + vtx * t" "yt = yt0 + vty * t"
    and "dx = xt - vox * t - vwx * t - x0" "dy = yt - voy * t - vwy * t - y0"
    and "R = sqrt (dx * dx + dy * dy)"
    and "angle_for_range (v0 a) R G = Inr (Some (low, high))"
    and "theta = (if prefer_high_arc a then high else low)"
    and "vx = (if \<bar>v0 a * cos theta\<bar> < 1 / 1000000 then 1 / 1000000 else v0 a * cos theta)"
    and "t_new = R / vx"
    and "u = (if R = 0 then (0, 0) else (dx / R, dy / R))"
  shows "iteration a it t =
     (if \<bar>t_new - t\<bar> < tol_time a then
        Inr (Return \<lparr>reachable = True, theta_deg = Some (degrees theta),
               azimuth_deg = Some (degrees (atan2 dy dx)), time_s = Some t_new,
               impact_xy = Some (x0 + fst u * R + (vox + vwx) * t_new,
                                 y0 + snd u * R + (voy + vwy) * t_new),
               predicted_target_xy = Some (xt, yt), iterations = it,
               low_high_deg = Some (degrees low, degrees high), max_range_m = None\<rparr>)
      else Inr (Continue t_new \<lparr>last_dx = dx, last_dy = dy, last_R = R, last_xt = xt,
                  last_yt = yt, last_theta_rad = theta, last_azimuth_rad = atan2 dy dx\<rparr>))"
proof -
  have "vx \<noteq> 0" unfolding assms(13) by (auto split: if_splits)
  then have pd: "py_div R vx = Inr t_new" by (simp add: py_div_def assms(14))
  have un: "unit dx dy = Inr u" by (simp add: unit_eq assms(10,15))
  show ?thesis
    unfolding iteration_def assms(1-5) Let_def prod.case
    unfolding assms(6,7)[symmetric]
    unfolding assms(8,9)[symmetric]
    unfolding norm_py_eq ebind_def sum.case
    unfolding assms(10)[symmetric] assms(11) sum.case option.case prod.case
    unfolding assms(12)[symmetric]
    unfolding assms(13)[symmetric] pd un sum.case
    by (simp add: split_beta)
qed

lemma iteration_raises:
  assumes "\<And>R. angle_for_range (v0 a) R G = Inl e"
  shows "iteration a it t = Inl e"
  by (simp add: iteration_def norm_py_eq ebind_def assms Let_def split_beta)

lemma iteration_shape:
  "(\<exists>e. iteration a it t = Inl e)
   \<or> (\<exists>r. iteration a it t = Inr (Return r) \<and> iterations r = it
         \<and> (reachable r \<longrightarrow> (\<exists>lo hi. low_high_deg r = Some (degrees lo, degrees hi))))
   \<or> (\<exists>t' l. iteration a it t = Inr (Continue t' l))"
proof -
  obtain x0 y0 xt0 yt0 vox voy vtx vty vwx vwy where c:
    "own_pos a = (x0, y0)" "target_pos a = (xt0, yt0)" "own_vel a = (vox, voy)"
    "target_vel a = (vtx, vty)" "wind_vel a = (vwx, vwy)"
    by (metis surj_pair)
  define xt yt where "xt = xt0 + vtx * t" and "yt = yt0 + vty * t"
  define dx dy where "dx = xt - vox * t - vwx * t - x0" and "dy = yt - voy * t - vwy * t - y0"
  show ?thesis
  proof (cases "angle_for_range (v0 a) (sqrt (dx * dx + dy * dy)) G")
    case (Inl e)
    then have "iteration a it t = Inl e"
      unfolding iteration_def c Let_def prod.case
      unfolding xt_def [symmetric] yt_def [symmetric]
      unfolding dx_def [symmetric] dy_def [symmetric]
      by (simp add: norm_py_eq ebind_def)
    then show ?thesis by simp
  next
    case (Inr roots)
    show ?thesis
    proof (cases roots)
      case None
      show ?thesis
        using iteration_unreachable [OF c xt_def yt_def dx_def dy_def Inr [unfolded None], of it]
        by simp
    next
      case (Some p)
      obtain low high where p: "p = (low, high)" by (cases p)
      show ?thesis
        using iteration_reachable [OF c xt_def yt_def dx_def dy_def refl Inr [unfolded Some p]
            refl refl refl refl, of it]
        by (auto split: if_splits)
    qed
  qed
qed

lemma converged_low_high:
  assumes "iteration a it t = Inr (Return r)" and "reachable r"
  shows "\<exists>lo hi. low_high_deg r = Some (degrees lo, degrees hi)"
  using iteration_shape [of a it t] assms by auto

lemma iteration_Return_iterations:
  assumes "iteration a it t = Inr (Return r)"
  shows "iterations r = it"
  using iteration_shape [of a it t] assms by auto

lemma iteration_total:
  assumes "pow_underflow < (v0 a)\<^sup>2" and "(v0 a)\<^sup>2 < pow_overflow"
  shows "\<exists>s. iteration a it t = Inr s"
proof -
  obtain x0 y0 xt0 yt0 vox voy vtx vty vwx vwy where c:
    "own_pos a = (x0, y0)" "target_pos a = (xt0, yt0)" "own_vel a = (vox, voy)"
    "target_vel a = (vtx, vty)" "wind_vel a = (vwx, vwy)"
    by (metis surj_pair)
  define xt yt where "xt = xt0 + vtx * t" and "yt = yt0 + vty * t"
  define dx dy where "dx = xt - vox * t - vwx * t - x0" and "dy = yt - voy * t - vwy * t - y0"
  obtain roots where r: "angle_for_range (v0 a) (sqrt (dx * dx + dy * dy)) G = Inr roots"
    using angle_for_range_total [OF assms] by blast
  show ?thesis
  proof (cases roots)
    case None
    show ?thesis
      using iteration_unreachable [OF c xt_def yt_def dx_def dy_def r [unfolded None], of it]
      by simp
  next
    case (Some p)
    obtain low high where p: "p = (low, high)" by (cases p)
    show ?thesis
      using iteration_reachable [OF c xt_def yt_def dx_def dy_def refl r [unfolded Some p]
          refl refl refl refl, of it]
      by simp
  qed
qed

lemma not_converged_total:
  "\<exists>r. not_converged a t prev = Inr r \<and> iterations r = max_iters a \<and> reachable r
        \<and> low_high_deg r = None"
  by (cases prev)
     (simp_all add: not_converged_def unit_eq ebind_def Let_def split_beta)

lemma solve_loop_total:
  assumes "pow_underflow < (v0 a)\<^sup>2" and "(v0 a)\<^sup>2 < pow_overflow"
  shows "\<exists>r. solve_loop a it t prev = Inr r"
  using assms
proof (induction a it t prev rule: solve_loop.induct)
  case (1 a it t prev)
  show ?case
  proof (cases "max_iters a < it")
    case True
    then show ?thesis
      using not_converged_total [of a t prev] by (auto simp: solve_loop.simps [of a it])
  next
    case False
    obtain s where s: "iteration a it t = Inr s"
      using iteration_total [OF "1.prems"] by blast
    show ?thesis
    proof (cases s)
      case (Return r)
      then show ?thesis using False s by (simp add: solve_loop.simps [of a it])
    next
      case (Continue t_new l)
      have "\<exists>r. solve_loop a (it + 1) t_new (Some l) = Inr r"
        using "1.IH" [OF False s [unfolded Continue] refl] "1.prems" by blast
      then show ?thesis
        using False s Continue by (auto simp: solve_loop.simps [of a it])
    qed
  qed
qed

lemma solve_loop_iterations:
  assumes "solve_loop a it t prev = Inr r"
  shows "iterations r \<le> max_iters a \<and> (1 \<le> it \<longrightarrow> 1 \<le> max_iters a \<longrightarrow> 1 \<le> iterations r)"
  using assms
proof (induction a it t prev rule: solve_loop.induct)
  case (1 a it t prev)
  show ?case
  proof (cases "max_iters a < it")
    case True
    then have "not_converged a t prev = Inr r"
      using "1.prems" by (simp add: solve_loop.simps [of a it])
    then show ?thesis using not_converged_total [of a t prev] by auto
  next
    case False
    show ?thesis
    proof (cases "iteration a it t")
      case (Inl e)
      then show ?thesis using False "1.prems" by (simp add: solve_loop.simps [of a it])
    next
      case (Inr s)
      show ?thesis
      proof (cases s)
        case (Return r')
        then have "r' = r"
          using False Inr "1.prems" by (simp add: solve_loop.simps [of a it])
        moreover have "iterations r' = it"
          using iteration_Return_iterations [of a it t r'] Inr Return by simp
        ultimately show ?thesis using False by auto
      next
        case (Continue t_new l)
        then have "solve_loop a (it + 1) t_new (Some l) = Inr r"
          using False Inr "1.prems" by (simp add: solve_loop.simps [of a it])
        then have "iterations r \<le> max_iters a
            \<and> (1 \<le> it + 1 \<longrightarrow> 1 \<le> max_iters a \<longrightarrow> 1 \<le> iterations r)"
          using "1.IH" [OF False Inr [unfolded Continue] refl] by blast
        then show ?thesis by auto
      qed
    qed
  qed
qed

lemma solve_fire_iterations:
  assumes "solve_fire a = Inr r"
  shows "iterations r \<le> max_iters a \<and> (1 \<le> max_iters a \<longrightarrow> 1 \<le> iterations r)"
proof (cases "initial_time a")
  case (Inl e)
  then show ?thesis using assms by (simp add: solve_fire_def ebind_def)
next
  case (Inr t)
  then have "solve_loop a 1 t None = Inr r"
    using assms by (simp add: solve_fire_def ebind_def)
  then show ?thesis using solve_loop_iterations [of a 1 t None r] by simp
qed

lemma solve_fire_total_aux:
  assumes "0 < v0 a" and "pow_underflow < (v0 a)\<^sup>2" and "(v0 a)\<^sup>2 < pow_overflow"
  shows "\<exists>r. solve_fire a = Inr r"
proof -
  obtain x0 y0 xt0 yt0 where c: "own_pos a = (x0, y0)" "target_pos a = (xt0, yt0)"
    by (metis surj_pair)
  obtain t where "initial_time a = Inr t"
    using initial_time_eq [OF c] assms(1) by simp
  then have "solve_fire a = solve_loop a 1 t None"
    by (simp add: solve_fire_def ebind_def)
  then show ?thesis
    using solve_loop_total [OF assms(2,3), of 1 t None] by auto
qed

lemma solve_fire_raises:
  assumes "0 < v0 a" and "1 \<le> max_iters a" and "\<And>R. angle_for_range (v0 a) R G = Inl e"
  shows "solve_fire a = Inl e"
proof -
  obtain x0 y0 xt0 yt0 where c: "own_pos a = (x0, y0)" "target_pos a = (xt0, yt0)"
    by (metis surj_pair)
  obtain t where "initial_time a = Inr t"
    using initial_time_eq [OF c] assms(1) by simp
  then have "solve_fire a = solve_loop a 1 t None"
    by (simp add: solve_fire_def ebind_def)
  also have "\<dots> = Inl e"
    using assms(2) iteration_raises [of a e 1 t, OF assms(3)]
    by (simp add: solve_loop.simps [of a 1])
  finally show ?thesis .
qed

lemma exhausted_result:
  assumes "reached a it t prev" and "max_iters a < it"
  shows "\<exists>r. solve_fire a = Inr r \<and> reachable r \<and> low_high_deg r = None
           \<and> iterations r = max_iters a"
proof -
  have "solve_fire a = not_converged a t prev"
    using solve_fire_reached [OF assms(1)] assms(2) by (simp add: solve_loop.simps [of a it])
  then show ?thesis using not_converged_total [of a t prev] by auto
qed

lemma returned_result:
  assumes "reached a it t prev" and "it \<le> max_iters a" and "iteration a it t = Inr (Return r)"
  shows "solve_fire a = Inr r"
  using solve_fire_reached [OF assms(1)] assms(2,3) by (simp add: solve_loop.simps [of a it])

lemma loop_invariant:
  assumes body: "\<And>it t. \<exists>s. iteration a it t = Inr s
                  \<and> (case s of Return r \<Rightarrow> P r | Continue t' l \<Rightarrow> Q l)"
    and after: "\<And>t l. Q l \<Longrightarrow> \<exists>r. not_converged a t (Some l) = Inr r \<and> P r"
    and start: "it \<le> max_iters a \<or> (\<exists>l. prev = Some l \<and> Q l)"
  shows "\<exists>r. solve_loop a it t prev = Inr r \<and> P r"
  using assms
proof (induction a it t prev rule: solve_loop.induct)
  case (1 a it t prev)
  show ?case
  proof (cases "max_iters a < it")
    case True
    then obtain l where "prev = Some l" "Q l" using "1.prems"(3) by auto
    then show ?thesis
      using "1.prems"(2) [of l t] True by (simp add: solve_loop.simps [of a it])
  next
    case False
    obtain s where s: "iteration a it t = Inr s"
      "case s of Return r \<Rightarrow> P r | Continue t' l \<Rightarrow> Q l"
      using "1.prems"(1) [of it t] by blast
    show ?thesis
    proof (cases s)
      case (Return r)
      then show ?thesis using False s by (simp add: solve_loop.simps [of a it])
    next
      case (Continue t_new l)
      then have "Q l" using s(2) by simp
      then have "\<exists>r. solve_loop a (it + 1) t_new (Some l) = Inr r \<and> P r"
        using "1.IH" [OF False s(1) [unfolded Continue] refl "1.prems"(1,2)] by blast
      then show ?thesis
        using False s(1) Continue by (simp add: solve_loop.simps [of a it])
    qed
  qed
qed

lemma stationary_iteration:
  assumes "own_pos a = (x0, y0)" and "target_pos a = (xt0, yt0)"
    and "own_vel a = (0, 0)" and "target_vel a = (0, 0)" and "wind_vel a = (0, 0)"
    and "R = sqrt ((xt0 - x0) * (xt0 - x0) + (yt0 - y0) * (yt0 - y0))"
    and "angle_for_range (v0 a) R G = Inr (Some (low, high))"
    and "\<not> prefer_high_arc a"
    and "vx = (if \<bar>v0 a * cos low\<bar> < 1 / 1000000 then 1 / 1000000 else v0 a * cos low)"
    and "u = (if R = 0 then (0, 0) else ((xt0 - x0) / R, (yt0 - y0) / R))"
  shows "iteration a it t =
     (if \<bar>R / vx - t\<bar> < tol_time a then
        Inr (Return \<lparr>reachable = True, theta_deg = Some (degrees low),
               azimuth_deg = Some (degrees (atan2 (yt0 - y0) (xt0 - x0))),
               time_s = Some (R / vx),
               impact_xy = Some (x0 + fst u * R + (0 + 0) * (R / vx),
                                 y0 + snd u * R + (0 + 0) * (R / vx)),
               predicted_target_xy = Some (xt0, yt0), iterations = it,
               low_high_deg = Some (degrees low, degrees high), max_range_m = None\<rparr>)
      else Inr (Continue (R / vx) \<lparr>last_dx = xt0 - x0, last_dy = yt0 - y0, last_R = R,
                  last_xt = xt0, last_yt = yt0, last_theta_rad = low,
                  last_azimuth_rad = atan2 (yt0 - y0) (xt0 - x0)\<rparr>))"
proof -
  have e: "xt0 = xt0 + 0 * t" "yt0 = yt0 + 0 * t"
    "xt0 - x0 = xt0 - 0 * t - 0 * t - x0" "yt0 - y0 = yt0 - 0 * t - 0 * t - y0"
    by simp_all
  have th: "low = (if prefer_high_arc a then high else low)"
    using assms(8) by simp
  show ?thesis
    by (rule iteration_reachable [OF assms(1-5) e assms(6,7) th assms(9) refl assms(10)])
qed

lemma stationary_after_loop:
  assumes "own_pos a = (x0, y0)" and "own_vel a = (0, 0)" and "wind_vel a = (0, 0)"
  shows "\<exists>r. not_converged a t (Some l) = Inr r \<and> reachable r
           \<and> azimuth_deg r = Some (degrees (last_azimuth_rad l))
           \<and> theta_deg r = Some (degrees (last_theta_rad l))"
  using assms by (simp add: not_converged_def unit_eq ebind_def Let_def split_beta)

lemma solve_fire_stationary_core:
  assumes "own_pos a = (x0, y0)" and "target_pos a = (xt0, yt0)"
    and "own_vel a = (0, 0)" and "target_vel a = (0, 0)" and "wind_vel a = (0, 0)"
    and "0 < v0 a" and "pow_underflow < (v0 a)\<^sup>2" and "(v0 a)\<^sup>2 < pow_overflow"
    and "R = sqrt ((xt0 - x0) * (xt0 - x0) + (yt0 - y0) * (yt0 - y0))"
    and "0 < R" and "R \<le> (v0 a)\<^sup>2 / G"
    and "2 \<le> max_iters a" and "\<not> prefer_high_arc a"
  shows "\<exists>r low high. angle_for_range (v0 a) R G = Inr (Some (low, high))
           \<and> solve_fire a = Inr r \<and> reachable r
           \<and> azimuth_deg r = Some (degrees (atan2 (yt0 - y0) (xt0 - x0)))
           \<and> theta_deg r = Some (degrees low)
           \<and> (0 < tol_time a \<longrightarrow>
                iterations r \<le> 2 \<and> low_high_deg r = Some (degrees low, degrees high))"
proof -
  have "G * R \<le> (v0 a)\<^sup>2"
    using assms(11) G_pos by (simp add: pos_le_divide_eq mult.commute)
  then have "G * R / (v0 a)\<^sup>2 \<le> 1" using assms(6) by simp
  moreover have "0 \<le> G * R / (v0 a)\<^sup>2" using assms(10) G_pos by simp
  ultimately have "angle_for_range (v0 a) R G =
      Inr (Some (arcsin (G * R / (v0 a)\<^sup>2) / 2, (pi - arcsin (G * R / (v0 a)\<^sup>2)) / 2))"
    using angle_for_range_arg [OF assms(7,8), of R G] by auto
  then obtain low high where ah: "angle_for_range (v0 a) R G = Inr (Some (low, high))"
    by blast
  define az where "az = atan2 (yt0 - y0) (xt0 - x0)"
  define vx where
    "vx = (if \<bar>v0 a * cos low\<bar> < 1 / 1000000 then 1 / 1000000 else v0 a * cos low)"
  define u where "u = (if R = 0 then (0, 0) else ((xt0 - x0) / R, (yt0 - y0) / R))"
  define res where "res it =
        \<lparr>reachable = True, theta_deg = Some (degrees low),
               azimuth_deg = Some (degrees az),
               time_s = Some (R / vx),
               impact_xy = Some (x0 + fst u * R + (0 + 0) * (R / vx),
                                 y0 + snd u * R + (0 + 0) * (R / vx)),
               predicted_target_xy = Some (xt0, yt0), iterations = it,
               low_high_deg = Some (degrees low, degrees high), max_range_m = None\<rparr>" for it
  define l1 where "l1 = \<lparr>last_dx = xt0 - x0, last_dy = yt0 - y0, last_R = R,
                  last_xt = xt0, last_yt = yt0, last_theta_rad = low,
                  last_azimuth_rad = az\<rparr>"
  have body: "iteration a it t =
     (if \<bar>R / vx - t\<bar> < tol_time a then Inr (Return (res it)) else Inr (Continue (R / vx) l1))"
    for it t
    unfolding res_def l1_def az_def
    by (rule stationary_iteration [OF assms(1-5) assms(9) ah assms(13) vx_def u_def])
  define P :: "fire_result \<Rightarrow> bool" where "P r \<longleftrightarrow> reachable r \<and> azimuth_deg r = Some (degrees az)
      \<and> theta_deg r = Some (degrees low)" for r
  define Q :: "loop_locals \<Rightarrow> bool" where "Q l \<longleftrightarrow> last_theta_rad l = low \<and> last_azimuth_rad l = az" for l
  obtain t0 where t0: "initial_time a = Inr t0"
    using initial_time_eq [OF assms(1,2)] assms(6) by simp
  then have sf: "solve_fire a = solve_loop a 1 t0 None"
    by (simp add: solve_fire_def ebind_def)
  have "\<exists>r. solve_loop a 1 t0 None = Inr r \<and> P r"
  proof (rule loop_invariant [where Q = Q])
    show "\<exists>s. iteration a it t = Inr s
            \<and> (case s of Return r \<Rightarrow> P r | Continue t' l \<Rightarrow> Q l)" for it t
      by (simp add: body P_def Q_def res_def l1_def)
    show "\<exists>r. not_converged a t (Some l) = Inr r \<and> P r" if "Q l" for t l
      using stationary_after_loop [OF assms(1,3,5), of t l] that by (simp add: P_def Q_def)
    show "1 \<le> max_iters a \<or> (\<exists>l. None = Some l \<and> Q l)"
      using assms(12) by simp
  qed
  then obtain r where r: "solve_fire a = Inr r" "P r" using sf by auto
  have conv: "iterations r \<le> 2 \<and> low_high_deg r = Some (degrees low, degrees high)"
    if tol: "0 < tol_time a"
  proof (cases "\<bar>R / vx - t0\<bar> < tol_time a")
    case True
    then have "solve_loop a 1 t0 None = Inr (res 1)"
      using assms(12) by (simp add: solve_loop.simps [of a 1] body)
    then have "r = res 1" using r(1) sf by simp
    then show ?thesis by (simp add: res_def)
  next
    case False
    then have "solve_loop a 1 t0 None = solve_loop a 2 (R / vx) (Some l1)"
      using assms(12) by (simp add: solve_loop.simps [of a 1] body)
    also have "\<dots> = Inr (res 2)"
      using assms(12) tol by (simp add: solve_loop.simps [of a 2] body)
    finally have "r = res 2" using r(1) sf by simp
    then show ?thesis by (simp add: res_def)
  qed
  show ?thesis
    using ah r conv by (auto simp: P_def az_def)
qed

lemma degrees_zero: "degrees 0 = 0"
  by (simp add: degrees_def)

lemma atan2_east: "0 < x \<Longrightarrow> atan2 0 x = 0"
  by (simp add: atan2_def)

lemma shot_fields:
  "own_pos (stationary_shot v x n tol) = (0, 0)"
  "target_pos (stationary_shot v x n tol) = (x, 0)"
  "own_vel (stationary_shot v x n tol) = (0, 0)"
  "target_vel (stationary_shot v x n tol) = (0, 0)"
  "wind_vel (stationary_shot v x n tol) = (0, 0)"
  "v0 (stationary_shot v x n tol) = v"
  "prefer_high_arc (stationary_shot v x n tol) = False"
  "max_iters (stationary_shot v x n tol) = n"
  "tol_time (stationary_shot v x n tol) = tol"
  by (simp_all add: stationary_shot_def)

lemma shot_range: "0 \<le> x \<Longrightarrow> x = sqrt ((x - 0) * (x - 0) + (0 - 0) * (0 - 0))"
  by simp

lemma cos_pi_12_bound: "4 / 5 \<le> cos (pi / 12)"
proof -
  have "cos (2 * (pi / 12)) = 2 * (cos (pi / 12))\<^sup>2 - 1"
    by (rule cos_double_cos)
  moreover have "2 * (pi / 12) = pi / 6" by simp
  ultimately have d: "cos (pi / 6) = 2 * (cos (pi / 12))\<^sup>2 - 1"
    by simp
  have "1 \<le> sqrt 3" by simp
  then have "3 / 4 \<le> (cos (pi / 12))\<^sup>2"
    using d cos_30 by linarith
  moreover have "(4 / 5 :: real)\<^sup>2 = 16 / 25"
    by (simp add: power2_eq_square)
  ultimately have "(4 / 5)\<^sup>2 \<le> (cos (pi / 12))\<^sup>2"
    by linarith
  moreover have "0 \<le> cos (pi / 12)"
    by (rule cos_ge_zero) (use pi_ge_zero in simp_all)
  ultimately show ?thesis by (rule power2_le_imp_le)
qed

lemma shot_700_5000_trace:
  fixes n :: int
  defines "a \<equiv> stationary_shot 700 5000 n (1 / 1000)"
  shows "\<exists>t0 t1 l1 r. initial_time a = Inr t0
           \<and> iteration a 1 t0 = Inr (Continue t1 l1)
           \<and> iteration a 2 t1 = Inr (Return r) \<and> reachable r"
proof -
  define arg :: real where "arg = G * 5000 / 700\<^sup>2"
  define low high where "low = arcsin arg / 2" and "high = (pi - arcsin arg) / 2"
  have arg: "0 \<le> arg" "arg \<le> 1 / 2" by (simp_all add: arg_def G_def)
  have rg: "pow_underflow < (700::real)\<^sup>2" "(700::real)\<^sup>2 < pow_overflow"
    using moderate_in_range [of 700] by simp_all
  have ah: "angle_for_range (v0 a) 5000 G = Inr (Some (low, high))"
    using arg angle_for_range_arg [OF rg, of 5000 G]
    by (simp add: a_def shot_fields arg_def low_def high_def)
  have "0 \<le> arcsin arg" using arg by (simp add: arcsin_nonneg)
  moreover have "arcsin arg \<le> arcsin (1 / 2)"
    using arg by (intro arcsin_le_arcsin) simp_all
  ultimately have low: "0 \<le> low" "low \<le> pi / 12" by (simp_all add: low_def)
  have "cos (pi / 12) \<le> cos low"
    using low by (intro cos_monotone_0_pi_le) (use pi_ge_zero in simp_all)
  then have c: "4 / 5 \<le> cos low" using cos_pi_12_bound by simp
  define vx where "vx = 700 * cos low"
  have vx: "560 \<le> vx" using c by (simp add: vx_def)
  then have vxe: "vx = (if \<bar>v0 a * cos low\<bar> < 1 / 1000000 then 1 / 1000000 else v0 a * cos low)"
    by (simp add: a_def shot_fields vx_def)
  define u :: "real \<times> real" where
    "u = (if (5000::real) = 0 then (0, 0) else ((5000 - 0) / 5000, (0 - 0) / 5000))"
  have r: "(5000::real) = sqrt ((5000 - 0) * (5000 - 0) + (0 - 0) * (0 - 0))"
    using real_sqrt_abs2 [of 5000] by simp
  note body = stationary_iteration [of a 0 0 5000 0 5000 low high vx u,
      unfolded a_def shot_fields, OF refl refl refl refl refl r
        ah [unfolded a_def shot_fields] _ vxe [unfolded a_def shot_fields] u_def]
  have s2: "7 / 5 \<le> sqrt 2" by (rule real_le_rsqrt) (simp add: power2_eq_square)
  have s2': "sqrt 2 \<le> 2" by (rule real_le_lsqrt) simp_all
  define t0 where "t0 = 5000 / max (700 / sqrt 2) (1 / 1000000)"
  have m: "max (700 / sqrt 2) (1 / 1000000) = 700 / sqrt 2"
    using s2' by (simp add: max_def field_simps)
  have t0: "10 \<le> t0" using s2 by (simp add: t0_def m)
  have t1: "5000 / vx \<le> 9" using vx by (simp add: field_simps)
  have i: "initial_time a = Inr t0"
    using initial_time_eq [of a 0 0 5000 0] r
    by (simp add: a_def shot_fields t0_def)
  have nc: "\<not> \<bar>5000 / vx - t0\<bar> < 1 / 1000" using t0 t1 by simp
  have "\<exists>l1. iteration a 1 t0 = Inr (Continue (5000 / vx) l1)"
    using body [of 1 t0] nc by (simp add: a_def)
  moreover have "\<exists>r. iteration a 2 (5000 / vx) = Inr (Return r) \<and> reachable r"
    using body [of 2 "5000 / vx"] by (simp add: a_def)
  ultimately show ?thesis using i by blast
qed

lemma shot_exhausted:
  "\<exists>it t prev. reached (stationary_shot 700 5000 1 (1 / 1000)) it t prev
     \<and> max_iters (stationary_shot 700 5000 1 (1 / 1000)) < it"
proof -
  obtain t0 t1 l1 where
    "initial_time (stationary_shot 700 5000 1 (1 / 1000)) = Inr t0"
    "iteration (stationary_shot 700 5000 1 (1 / 1000)) 1 t0 = Inr (Continue t1 l1)"
    using shot_700_5000_trace [of 1] by blast
  then have "reached (stationary_shot 700 5000 1 (1 / 1000)) (1 + 1) t1 (Some l1)"
    by (intro reached_step [OF reached_start]) (simp_all add: shot_fields)
  then have "reached (stationary_shot 700 5000 1 (1 / 1000)) 2 t1 (Some l1)"
    by simp
  moreover have "max_iters (stationary_shot 700 5000 1 (1 / 1000)) < 2"
    by (simp add: shot_fields)
  ultimately show ?thesis by blast
qed

lemma shot_converged:
  "\<exists>t prev r. reached (stationary_shot 700 5000 12 (1 / 1000)) 2 t prev
     \<and> iteration (stationary_shot 700 5000 12 (1 / 1000)) 2 t = Inr (Return r) \<and> reachable r"
proof -
  obtain t0 t1 l1 r where
    "initial_time (stationary_shot 700 5000 12 (1 / 1000)) = Inr t0"
    "iteration (stationary_shot 700 5000 12 (1 / 1000)) 1 t0 = Inr (Continue t1 l1)"
    and r: "iteration (stationary_shot 700 5000 12 (1 / 1000)) 2 t1 = Inr (Return r)" "reachable r"
    using shot_700_5000_trace [of 12] by blast
  then have "reached (stationary_shot 700 5000 12 (1 / 1000)) (1 + 1) t1 (Some l1)"
    by (intro reached_step [OF reached_start]) (simp_all add: shot_fields)
  then show ?thesis using r by auto
qed

subsection \<open>The claims about \<open>solve_fire\<close>\<close>

text \<open>
  C1, as amended. Own ship at rest, target at rest, no wind, a muzzle speed \<open>v0 > 0\<close> whose
  square does not overflow, and a straight-line range \<open>R\<close> between the two positions whose
  square is a normal double (\<open>2^-510 \<le> R < 2^511\<close>) and which is inside the maximum range by
  the margin, \<open>R \<le> (1 - 2^-48) \<cdot> v0\<^sup>2/G\<close>: with \<open>max_iters \<ge> 2\<close> and the low arc
  preferred, \<open>solve_fire\<close> returns a result marked reachable whose azimuth is that of
  \<open>atan2(target.y - own.y, target.x - own.x)\<close> and whose elevation is that of the low root of
  \<open>angle_for_range(v0, R)\<close>, both in degrees as the result reports them. With a positive time
  tolerance the result is the converged one: it is returned at iteration 1 or 2 and carries
  the pair of roots.
\<close>

theorem solve_fire_stationary:
  assumes "own_pos a = (x0, y0)" and "target_pos a = (xt0, yt0)"
    and "own_vel a = (0, 0)" and "target_vel a = (0, 0)" and "wind_vel a = (0, 0)"
    and "0 < v0 a" and "(v0 a)\<^sup>2 < pow_overflow"
    and "R = sqrt ((xt0 - x0) * (xt0 - x0) + (yt0 - y0) * (yt0 - y0))"
    and "range_low \<le> R" and "R < range_high"
    and "R \<le> (1 - margin) * ((v0 a)\<^sup>2 / G)"
    and "2 \<le> max_iters a" and "\<not> prefer_high_arc a"
  shows "\<exists>r low high. angle_for_range (v0 a) R G = Inr (Some (low, high))
           \<and> solve_fire a = Inr r \<and> reachable r
           \<and> azimuth_deg r = Some (degrees (atan2 (yt0 - y0) (xt0 - x0)))
           \<and> theta_deg r = Some (degrees low)
           \<and> (0 < tol_time a \<longrightarrow>
                iterations r \<le> 2 \<and> low_high_deg r = Some (degrees low, degrees high))"
proof -
  have pos: "0 < R" using assms(9) pow_bounds(8) by linarith
  have "0 \<le> margin * ((v0 a)\<^sup>2 / G)"
    using pow_bounds(6) G_pos by simp
  moreover have "(1 - margin) * ((v0 a)\<^sup>2 / G) = (v0 a)\<^sup>2 / G - margin * ((v0 a)\<^sup>2 / G)"
    by (simp only: left_diff_distrib mult_1)
  ultimately have le: "R \<le> (v0 a)\<^sup>2 / G" using assms(11) by linarith
  then have "G * R \<le> (v0 a)\<^sup>2"
    using G_pos by (simp add: pos_le_divide_eq mult.commute)
  moreover have "G * range_low \<le> G * R"
    using assms(9) G_pos by simp
  ultimately have u: "pow_underflow < (v0 a)\<^sup>2"
    using pow_bounds(11) by linarith
  show ?thesis
    by (rule solve_fire_stationary_core [OF assms(1-6) u assms(7,8) pos le assms(12,13)])
qed

theorem solve_fire_stationary_witness:
  "\<exists>r low high. angle_for_range 700 5000 G = Inr (Some (low, high))
     \<and> solve_fire (stationary_shot 700 5000 12 (1 / 1000)) = Inr r \<and> reachable r
     \<and> azimuth_deg r = Some 0 \<and> theta_deg r = Some (degrees low)
     \<and> iterations r \<le> 2 \<and> low_high_deg r = Some (degrees low, degrees high)"
proof -
  have h: "(0::real) < 700" "(2::int) \<le> 12" "\<not> False" "(0::real) < 1 / 1000"
    by simp_all
  have o: "(700::real)\<^sup>2 < pow_overflow"
    using moderate_in_range [of 700] by simp
  have b: "range_low \<le> (5000::real)" "(5000::real) < range_high"
    using pow_bounds(9,10) by simp_all
  have "(5000::real) \<le> (1 / 2) * (700\<^sup>2 / G)" by (simp add: G_def)
  also have "\<dots> \<le> (1 - margin) * (700\<^sup>2 / G)"
    using pow_bounds(7) by (intro mult_right_mono) (simp_all add: G_def)
  finally have m: "(5000::real) \<le> (1 - margin) * (700\<^sup>2 / G)" .
  have r: "(5000::real) = sqrt ((5000 - 0) * (5000 - 0) + (0 - 0) * (0 - 0))"
    by (rule shot_range) simp
  show ?thesis
    using solve_fire_stationary [of "stationary_shot 700 5000 12 (1 / 1000)" 0 0 5000 0 5000,
        unfolded shot_fields, OF refl refl refl refl refl h(1) o r b m h(2,3)] h(4)
    by (simp add: atan2_east degrees_zero)
qed

text \<open>
  C1 as stated fails at \<open>v0 = 2^512\<close>: the target at rest at \<open>(5000, 0)\<close> is within
  \<open>v0\<^sup>2/G\<close>, the square overflows in the first iteration, and \<open>solve_fire\<close> raises
  \<open>OverflowError\<close> where the claim has a reachable solution.
\<close>

theorem solve_fire_stationary_counterexample:
  "0 < v0 (stationary_shot huge_v0 5000 12 (1 / 1000))
   \<and> (5000::real) = sqrt ((5000 - 0) * (5000 - 0) + (0 - 0) * (0 - 0))
   \<and> (0::real) < 5000 \<and> 5000 \<le> huge_v0\<^sup>2 / G
   \<and> 2 \<le> max_iters (stationary_shot huge_v0 5000 12 (1 / 1000))
   \<and> \<not> prefer_high_arc (stationary_shot huge_v0 5000 12 (1 / 1000))
   \<and> solve_fire (stationary_shot huge_v0 5000 12 (1 / 1000)) = Inl OverflowError"
proof -
  have "5000 * G \<le> huge_v0\<^sup>2"
    using extreme_squares(1) pow_bounds(3) by (simp add: G_def)
  then have "5000 \<le> huge_v0\<^sup>2 / G"
    by (simp add: pos_le_divide_eq G_def)
  moreover have "(5000::real) = sqrt ((5000 - 0) * (5000 - 0) + (0 - 0) * (0 - 0))"
    by (rule shot_range) simp
  moreover have "solve_fire (stationary_shot huge_v0 5000 12 (1 / 1000)) = Inl OverflowError"
    by (rule solve_fire_raises)
       (simp_all add: shot_fields extreme_squares angle_for_range_overflow)
  ultimately show ?thesis
    using extreme_squares(3) by (simp add: shot_fields)
qed

text \<open>
  C4. Whenever an iteration \<open>it\<close> of \<open>solve_fire\<close>, entered with the time estimate \<open>t\<close>,
  finds the compensated range unreachable (\<open>angle_for_range\<close> returns \<open>None\<close>),
  \<open>solve_fire\<close> returns at that iteration: \<open>reachable\<close> is false, elevation, time of flight
  and impact point are absent, the azimuth is that of \<open>atan2(dy, dx)\<close> for the compensated
  displacement of this iteration, the maximum range is \<open>v0\<^sup>2/G\<close>, the predicted target
  position is the uncompensated one at time \<open>t\<close>, and the iteration count is \<open>it\<close>.
\<close>

theorem solve_fire_unreachable:
  assumes "reached a it t prev" and "it \<le> max_iters a"
    and "own_pos a = (x0, y0)" and "target_pos a = (xt0, yt0)" and "own_vel a = (vox, voy)"
    and "target_vel a = (vtx, vty)" and "wind_vel a = (vwx, vwy)"
    and "xt = xt0 + vtx * t" and "yt = yt0 + vty * t"
    and "dx = xt - vox * t - vwx * t - x0" and "dy = yt - voy * t - vwy * t - y0"
    and "angle_for_range (v0 a) (sqrt (dx * dx + dy * dy)) G = Inr None"
  shows "solve_fire a =
     Inr \<lparr>reachable = False, theta_deg = None,
          azimuth_deg = Some (degrees (atan2 dy dx)), time_s = None,
          impact_xy = None, predicted_target_xy = Some (xt, yt),
          iterations = it, low_high_deg = None,
          max_range_m = Some ((v0 a)\<^sup>2 / G)\<rparr>"
  using returned_result [OF assms(1,2) iteration_unreachable [OF assms(3-12)]] .

theorem solve_fire_unreachable_witness:
  "solve_fire (stationary_shot 18 5000 12 (1 / 1000)) =
     Inr \<lparr>reachable = False, theta_deg = None, azimuth_deg = Some 0, time_s = None,
          impact_xy = None, predicted_target_xy = Some (5000, 0),
          iterations = 1, low_high_deg = None, max_range_m = Some (18\<^sup>2 / G)\<rparr>"
proof -
  have r: "(5000::real) = sqrt ((5000 - 0) * (5000 - 0) + (0 - 0) * (0 - 0))"
    using real_sqrt_abs2 [of 5000] by simp
  have rg: "pow_underflow < (18::real)\<^sup>2" "(18::real)\<^sup>2 < pow_overflow"
    using moderate_in_range [of 18] by simp_all
  obtain t where "initial_time (stationary_shot 18 5000 12 (1 / 1000)) = Inr t"
    using initial_time_eq [of "stationary_shot 18 5000 12 (1 / 1000)" 0 0 5000 0]
    by (simp add: shot_fields)
  then have s: "reached (stationary_shot 18 5000 12 (1 / 1000)) 1 t None"
    by (rule reached_start)
  have e: "(5000::real) = 5000 + 0 * t" "(0::real) = 0 + 0 * t"
    "(5000::real) = 5000 - 0 * t - 0 * t - 0" "(0::real) = 0 - 0 * t - 0 * t - 0"
    by simp_all
  have u: "angle_for_range 18 (sqrt (5000 * 5000 + 0 * 0)) G = Inr None"
    using r angle_for_range_arg [OF rg, of "sqrt (5000 * 5000 + 0 * 0)" G]
    by (simp add: G_def)
  show ?thesis
    using solve_fire_unreachable [of "stationary_shot 18 5000 12 (1 / 1000)" 1 t None
        0 0 5000 0 0 0 0 0 0 0 5000 0 5000 0, unfolded shot_fields, OF s _ refl refl refl refl refl e u]
    by (simp add: atan2_east degrees_zero)
qed

text \<open>
  C5, as amended. The pair of roots is reported on the convergence path only. When an
  iteration \<open>it \<le> max_iters\<close> returns a result marked reachable (the tolerance is met), that
  is the result of \<open>solve_fire\<close> and it carries the low/high pair. When the loop is exhausted,
  \<open>solve_fire\<close> returns a result marked reachable, with the iteration count \<open>max_iters\<close>,
  whose \<open>low_high_deg\<close> is absent.
\<close>

theorem low_high_by_path:
  assumes "reached a it t prev"
  shows "(max_iters a < it \<longrightarrow>
            (\<exists>r. solve_fire a = Inr r \<and> reachable r \<and> low_high_deg r = None
               \<and> iterations r = max_iters a))
       \<and> (\<forall>r. it \<le> max_iters a \<longrightarrow> iteration a it t = Inr (Return r) \<longrightarrow> reachable r \<longrightarrow>
            solve_fire a = Inr r \<and> (\<exists>lo hi. low_high_deg r = Some (degrees lo, degrees hi)))"
  using exhausted_result [OF assms] returned_result [OF assms] converged_low_high [of a it t]
  by blast

theorem low_high_by_path_witness:
  "(\<exists>r. solve_fire (stationary_shot 700 5000 1 (1 / 1000)) = Inr r \<and> reachable r
       \<and> low_high_deg r = None \<and> iterations r = 1)
   \<and> (\<exists>r lo hi. solve_fire (stationary_shot 700 5000 12 (1 / 1000)) = Inr r \<and> reachable r
       \<and> low_high_deg r = Some (degrees lo, degrees hi))"
proof -
  obtain it t prev where e: "reached (stationary_shot 700 5000 1 (1 / 1000)) it t prev"
    "max_iters (stationary_shot 700 5000 1 (1 / 1000)) < it"
    using shot_exhausted by blast
  obtain t' prev' r where c: "reached (stationary_shot 700 5000 12 (1 / 1000)) 2 t' prev'"
    "iteration (stationary_shot 700 5000 12 (1 / 1000)) 2 t' = Inr (Return r)" "reachable r"
    using shot_converged by blast
  have "(2::int) \<le> max_iters (stationary_shot 700 5000 12 (1 / 1000))"
    by (simp add: shot_fields)
  then have "solve_fire (stationary_shot 700 5000 12 (1 / 1000)) = Inr r
      \<and> (\<exists>lo hi. low_high_deg r = Some (degrees lo, degrees hi))"
    using low_high_by_path [OF c(1)] c(2,3) by blast
  moreover have "\<exists>r. solve_fire (stationary_shot 700 5000 1 (1 / 1000)) = Inr r \<and> reachable r
       \<and> low_high_deg r = None \<and> iterations r = 1"
    using low_high_by_path [OF e(1)] e(2) by (simp add: shot_fields)
  ultimately show ?thesis using c(3) by blast
qed

text \<open>
  C5 as stated fails: with the default tolerance and \<open>max_iters = 1\<close>, the shot of section 8
  (\<open>v0 = 700\<close>, target at rest at \<open>(5000, 0)\<close>) does not converge at its only iteration, and
  the result is marked reachable without the low/high pair.
\<close>

theorem low_high_missing_counterexample:
  "\<not> isl (solve_fire (stationary_shot 700 5000 1 (1 / 1000)))
   \<and> reachable (projr (solve_fire (stationary_shot 700 5000 1 (1 / 1000))))
   \<and> low_high_deg (projr (solve_fire (stationary_shot 700 5000 1 (1 / 1000)))) = None"
proof -
  obtain it t prev where "reached (stationary_shot 700 5000 1 (1 / 1000)) it t prev"
    "max_iters (stationary_shot 700 5000 1 (1 / 1000)) < it"
    using shot_exhausted by blast
  then show ?thesis
    using exhausted_result [of "stationary_shot 700 5000 1 (1 / 1000)" it t prev] by auto
qed

text \<open>
  C6. For every input with \<open>v0 \<le> 0\<close>, \<open>solve_fire\<close> raises its \<open>ValueError\<close> before the
  loop: it returns no result, and no state of the loop is reached.
\<close>

theorem solve_fire_rejects_nonpositive_v0:
  assumes "v0 a \<le> 0"
  shows "solve_fire a = Inl (ValueError ''Muzzle velocity must be positive.'')
         \<and> (\<forall>it t prev. \<not> reached a it t prev)"
proof -
  obtain x0 y0 xt0 yt0 where c: "own_pos a = (x0, y0)" "target_pos a = (xt0, yt0)"
    by (metis surj_pair)
  have i: "initial_time a = Inl (ValueError ''Muzzle velocity must be positive.'')"
    using initial_time_eq [OF c] assms by simp
  then have "solve_fire a = Inl (ValueError ''Muzzle velocity must be positive.'')"
    by (simp add: solve_fire_def ebind_def)
  moreover have "\<not> reached a it t prev" for it t prev
    using reached_initial [of a it t prev] i by auto
  ultimately show ?thesis by blast
qed

theorem solve_fire_rejects_nonpositive_v0_witness:
  "v0 (stationary_shot 0 5000 12 (1 / 1000)) \<le> 0
   \<and> solve_fire (stationary_shot 0 5000 12 (1 / 1000))
       = Inl (ValueError ''Muzzle velocity must be positive.'')
   \<and> (\<forall>it t prev. \<not> reached (stationary_shot 0 5000 12 (1 / 1000)) it t prev)"
proof -
  have h: "v0 (stationary_shot 0 5000 12 (1 / 1000)) \<le> 0"
    by (simp add: stationary_shot_def)
  show ?thesis using h solve_fire_rejects_nonpositive_v0 [OF h] by blast
qed

text \<open>
  C7, as amended. For every input with \<open>v0 > 0\<close> whose square neither overflows nor rounds
  to zero, \<open>solve_fire\<close> raises no exception: no division has a zero divisor,
  \<open>math.sqrt\<close> and \<open>math.asin\<close> stay in their domains, and the loop ends, so that a result is
  returned, with an iteration count of at most \<open>max_iters\<close>.
\<close>

theorem solve_fire_total:
  assumes "0 < v0 a" and "pow_underflow < (v0 a)\<^sup>2" and "(v0 a)\<^sup>2 < pow_overflow"
  shows "\<exists>r. solve_fire a = Inr r \<and> iterations r \<le> max_iters a"
  using solve_fire_total_aux [OF assms] solve_fire_iterations [of a] by blast

theorem solve_fire_total_witness:
  "0 < v0 (stationary_shot 700 5000 12 (1 / 1000))
   \<and> pow_underflow < (v0 (stationary_shot 700 5000 12 (1 / 1000)))\<^sup>2
   \<and> (v0 (stationary_shot 700 5000 12 (1 / 1000)))\<^sup>2 < pow_overflow
   \<and> (\<exists>r. solve_fire (stationary_shot 700 5000 12 (1 / 1000)) = Inr r
         \<and> iterations r \<le> max_iters (stationary_shot 700 5000 12 (1 / 1000)))"
proof -
  have h: "0 < v0 (stationary_shot 700 5000 12 (1 / 1000))"
    "pow_underflow < (v0 (stationary_shot 700 5000 12 (1 / 1000)))\<^sup>2"
    "(v0 (stationary_shot 700 5000 12 (1 / 1000)))\<^sup>2 < pow_overflow"
    using moderate_in_range [of 700] by (simp_all add: shot_fields)
  show ?thesis using h solve_fire_total [OF h] by blast
qed

text \<open>
  C7 as stated fails at \<open>v0 = 2^-540\<close>, a positive double that passes the check of \<open>v0\<close>:
  its square is \<open>0.0\<close>, and the division by it in the first iteration raises
  \<open>ZeroDivisionError\<close>. (At \<open>v0 = 2^512\<close> the square raises \<open>OverflowError\<close>.)
\<close>

theorem solve_fire_total_counterexample:
  "0 < v0 (stationary_shot tiny_v0 5000 12 (1 / 1000))
   \<and> solve_fire (stationary_shot tiny_v0 5000 12 (1 / 1000)) = Inl ZeroDivisionError"
proof -
  have "solve_fire (stationary_shot tiny_v0 5000 12 (1 / 1000)) = Inl ZeroDivisionError"
    by (rule solve_fire_raises)
       (simp_all add: shot_fields extreme_squares angle_for_range_underflow)
  then show ?thesis using extreme_squares(4) by (simp add: shot_fields)
qed

text \<open>
  C9. For every input with \<open>v0 > 0\<close> and \<open>max_iters \<ge> 1\<close>, the iteration count of every
  result of \<open>solve_fire\<close> lies between 1 and \<open>max_iters\<close>, and when the loop is exhausted
  (the tolerance was never met) it is \<open>max_iters\<close> exactly.
\<close>

theorem iterations_bounds:
  assumes "0 < v0 a" and "1 \<le> max_iters a" and "solve_fire a = Inr r"
  shows "1 \<le> iterations r \<and> iterations r \<le> max_iters a
         \<and> ((\<exists>it t prev. reached a it t prev \<and> max_iters a < it) \<longrightarrow> iterations r = max_iters a)"
proof -
  have "1 \<le> iterations r \<and> iterations r \<le> max_iters a"
    using solve_fire_iterations [OF assms(3)] assms(2) by auto
  moreover have "iterations r = max_iters a"
    if "\<exists>it t prev. reached a it t prev \<and> max_iters a < it"
    using that exhausted_result [of a] assms(3) by auto
  ultimately show ?thesis by blast
qed

theorem iterations_bounds_witness:
  "0 < v0 (stationary_shot 700 5000 1 (1 / 1000))
   \<and> 1 \<le> max_iters (stationary_shot 700 5000 1 (1 / 1000))
   \<and> (\<exists>it t prev. reached (stationary_shot 700 5000 1 (1 / 1000)) it t prev
         \<and> max_iters (stationary_shot 700 5000 1 (1 / 1000)) < it)
   \<and> (\<exists>r. solve_fire (stationary_shot 700 5000 1 (1 / 1000)) = Inr r
         \<and> 1 \<le> iterations r \<and> iterations r \<le> 1 \<and> iterations r = 1)"
proof -
  have h: "0 < v0 (stationary_shot 700 5000 1 (1 / 1000))"
    "1 \<le> max_iters (stationary_shot 700 5000 1 (1 / 1000))"
    by (simp_all add: shot_fields)
  have g: "pow_underflow < (v0 (stationary_shot 700 5000 1 (1 / 1000)))\<^sup>2"
    "(v0 (stationary_shot 700 5000 1 (1 / 1000)))\<^sup>2 < pow_overflow"
    using moderate_in_range [of 700] by (simp_all add: shot_fields)
  obtain r where r: "solve_fire (stationary_shot 700 5000 1 (1 / 1000)) = Inr r"
    using solve_fire_total_aux [OF h(1) g] by blast
  show ?thesis
    using h shot_exhausted iterations_bounds [OF h r] r by (simp add: shot_fields)
qed

end
